theory Spec2Isabelle
  imports Complex_Main "HOL-Library.List_Lexorder" "HOL-Library.Char_ord"
begin

section \<open>The downloader base class of mfm\_learner\<close>

text \<open>
  The development embeds \<^verbatim>\<open>utils/tushare_download/downloaders/base_downloader.py\<close>
  and \<^verbatim>\<open>trade_cal.py\<close>. A raised exception is the left injection of a sum, the
  mutable instance is a record passed in and returned, and the effects a caller can
  observe (provider calls, \<^verbatim>\<open>time.sleep\<close>) are collected in a trace.
\<close>

subsection \<open>Module constants\<close>

definition RETRY :: int where
  "RETRY = 5"

definition WAIT :: int where
  "WAIT = 1"

definition MAX_PER_SECOND :: int where
  "MAX_PER_SECOND = 200"

definition CALL_INTERVAL :: rat where
  "CALL_INTERVAL = 60 / of_int MAX_PER_SECOND"

definition EALIEST_DATE :: string where
  "EALIEST_DATE = ''20080101''"

subsection \<open>Errors, the instance, observable effects\<close>

text \<open>
  \<open>RuntimeError\<close> is what \<^verbatim>\<open>retry_call\<close> raises; \<open>ValueError\<close> and \<open>DBError\<close> are
  raised by the libraries underneath (pandas, the database driver) and pass through
  the methods of the class untouched.
\<close>

datatype error = RuntimeError string | ValueError string | DBError string | ProviderError string

text \<open>
  The literal of the source is Chinese text (``calling the Tushare API failed several
  times''); it is a constant of the program and carries no data of the call.
\<close>

definition RETRY_FAILED :: string where
  "RETRY_FAILED = ''Tushare API call failed after several attempts......''"

text \<open>
  The fields \<^verbatim>\<open>__init__\<close> sets. \<open>table_name\<close> and \<open>date_column_name\<close> stand for the
  two methods a subclass overrides. The database engine and the provider handle are
  external and passed to the operations that use them.
\<close>

record downloader =
  retry_count :: int
  save_dir :: string
  call_interval :: rat
  table_name :: string
  date_column_name :: string

definition init :: "string \<Rightarrow> string \<Rightarrow> downloader" where
  "init tn dc = \<lparr>retry_count = 0, save_dir = ''data/tushare_download'',
     call_interval = CALL_INTERVAL, table_name = tn, date_column_name = dc\<rparr>"

type_synonym kwargs = "(string \<times> string) list"

text \<open>The cause a failed provider call raises.\<close>

type_synonym exn = string

text \<open>
  What one invocation does to the outside: it calls the provider function with the
  keyword arguments, and it sleeps a number of seconds.
\<close>

datatype event = Call kwargs | Sleep int

text \<open>
  A provider function may answer differently from call to call, so it runs over a
  state \<open>'e\<close> of its own: it returns the row-set or the raised cause, and the next state.
\<close>

type_synonym ('e, 'r) provider = "kwargs \<Rightarrow> 'e \<Rightarrow> (exn + 'r) \<times> 'e"

subsection \<open>retry\_call\<close>

text \<open>
  \<^verbatim>\<open>int(math.pow(2, n))\<close>: the float power is exact for the exponents the loop reaches
  (\<open>n < RETRY\<close>); for a negative exponent the power lies strictly between 0 and 1 and
  \<^verbatim>\<open>int\<close> truncates it to 0.
\<close>

definition pow2 :: "int \<Rightarrow> int" where
  "pow2 n = (if 0 \<le> n then 2 ^ nat n else 0)"

text \<open>
  The \<^verbatim>\<open>while\<close> loop. The result is the returned row-set or the raised error, the
  instance and the provider state afterwards, and the trace of the invocation.
\<close>

function retry_call ::
  "('e, 'r) provider \<Rightarrow> kwargs \<Rightarrow> downloader \<Rightarrow> 'e \<Rightarrow> (error + 'r) \<times> downloader \<times> 'e \<times> event list"
where
  "retry_call func kw self e =
     (if retry_count self < RETRY then
        (case func kw e of
           (Inr df, e') \<Rightarrow> (Inr df, self\<lparr>retry_count := 0\<rparr>, e', [Call kw])
         | (Inl x, e') \<Rightarrow>
             (let sleep = pow2 (retry_count self);
                  (r, self', e'', t) =
                     retry_call func kw (self\<lparr>retry_count := retry_count self + 1\<rparr>) e'
              in (r, self', e'', Call kw # Sleep (sleep * 30) # t)))
      else (Inl (RuntimeError RETRY_FAILED), self, e, []))"
  by pat_completeness auto
termination
  by (relation "measure (\<lambda>(func, kw, self, e). nat (RETRY - retry_count self))") auto

declare retry_call.simps [simp del]

text \<open>Reading a trace: the provider calls made, and the seconds slept.\<close>

fun calls :: "event list \<Rightarrow> nat" where
  "calls [] = 0"
| "calls (Call kw # t) = Suc (calls t)"
| "calls (Sleep n # t) = calls t"

fun slept :: "event list \<Rightarrow> int" where
  "slept [] = 0"
| "slept (Call kw # t) = slept t"
| "slept (Sleep n # t) = n + slept t"

text \<open>The provider state after \<open>n\<close> calls with the same arguments.\<close>

fun env_after :: "('e, 'r) provider \<Rightarrow> kwargs \<Rightarrow> 'e \<Rightarrow> nat \<Rightarrow> 'e" where
  "env_after func kw e 0 = e"
| "env_after func kw e (Suc n) = env_after func kw (snd (func kw e)) n"

text \<open>
  \<open>k\<close> failed attempts starting at attempt count \<open>c\<close>: each is a call followed by its
  backoff sleep.
\<close>

fun backoff :: "kwargs \<Rightarrow> int \<Rightarrow> nat \<Rightarrow> event list" where
  "backoff kw c 0 = []"
| "backoff kw c (Suc k) = Call kw # Sleep (pow2 c * 30) # backoff kw (c + 1) k"

text \<open>
  Provider functions used at concrete inputs: one that always returns the row-set, one
  that always raises, and one that raises on its first \<open>k\<close> calls and returns afterwards
  (its state counts the calls made).
\<close>

definition succeeding :: "'r \<Rightarrow> ('e, 'r) provider" where
  "succeeding df kw e = (Inr df, e)"

definition failing :: "exn \<Rightarrow> ('e, 'r) provider" where
  "failing x kw e = (Inl x, e)"

definition flaky :: "nat \<Rightarrow> exn \<Rightarrow> 'r \<Rightarrow> (nat, 'r) provider" where
  "flaky k x df kw n = (if n < k then Inl x else Inr df, Suc n)"

subsection \<open>Row-sets and the store\<close>

text \<open>
  A pandas DataFrame as the downloader uses it: named columns with their pandas dtype,
  and rows of cells. A cell is carried in its textual form; \<open>None\<close> is a missing value
  (NULL in the database).
\<close>

datatype pd_dtype = ObjectT | Int64T | Float64T | BoolT | DatetimeT

type_synonym cell = "string option"

record dataframe =
  df_columns :: "(string \<times> pd_dtype) list"
  df_rows :: "cell list list"

text \<open>
  The column types of the database: the explicit \<open>VARCHAR\<close> of \<^verbatim>\<open>dtype_dic\<close>, and the
  types pandas infers from a dtype when it is given none.
\<close>

datatype sql_type = VARCHAR nat | TEXT | BIGINT | FLOAT | BOOLEAN | DATETIME

type_synonym row = "(string \<times> cell) list"

record table =
  t_columns :: "(string \<times> sql_type) list"
  t_rows :: "row list"
  t_indexes :: "string list"

text \<open>What the engine was asked to do, in order.\<close>

datatype db_op = ToSql string string | CreateIndex string "string list"

text \<open>
  The store behind \<^verbatim>\<open>db_engine\<close>: its tables, the operations it has been asked for,
  and the outcomes the environment has in store for the coming statements that write
  (each statement takes the first entry; \<open>Some msg\<close> makes it fail with that message, an
  absent entry or \<open>None\<close> lets it through).
\<close>

record db =
  tables :: "string \<rightharpoonup> table"
  oplog :: "db_op list"
  faults :: "string option list"

definition write_attempts :: "db \<Rightarrow> nat" where
  "write_attempts d = length (filter (\<lambda>op. case op of ToSql n m \<Rightarrow> True | _ \<Rightarrow> False) (oplog d))"

definition rows_of :: "db \<Rightarrow> string \<Rightarrow> row list" where
  "rows_of d name = (case tables d name of None \<Rightarrow> [] | Some t \<Rightarrow> t_rows t)"

subsection \<open>pandas to\_sql\<close>

text \<open>
  \<^verbatim>\<open>DataFrame.to_sql(name, con, index=False, if_exists, dtype, chunksize)\<close> as pandas
  documents it. The table is created from the frame's columns when it is absent, and
  dropped and created anew for \<^verbatim>\<open>'replace'\<close>; a column named in \<open>dtype\<close> gets that
  type, any other the type inferred from its pandas dtype. The rows are then inserted in
  chunks of \<open>chunksize\<close>, which is positive at the one place that calls it. An
  appended frame with a column the table lacks is refused by the database.
\<close>

fun infer :: "pd_dtype \<Rightarrow> sql_type" where
  "infer ObjectT = TEXT"
| "infer Int64T = BIGINT"
| "infer Float64T = FLOAT"
| "infer BoolT = BOOLEAN"
| "infer DatetimeT = DATETIME"

definition sqlalchemy_type :: "(string \<times> sql_type) list \<Rightarrow> string \<times> pd_dtype \<Rightarrow> sql_type" where
  "sqlalchemy_type dtype col =
     (case map_of dtype (fst col) of Some ty \<Rightarrow> ty | None \<Rightarrow> infer (snd col))"

definition create_table :: "(string \<times> sql_type) list \<Rightarrow> dataframe \<Rightarrow> table" where
  "create_table dtype df =
     \<lparr>t_columns = map (\<lambda>col. (fst col, sqlalchemy_type dtype col)) (df_columns df),
      t_rows = [], t_indexes = []\<rparr>"

definition to_rows :: "dataframe \<Rightarrow> row list" where
  "to_rows df = map (\<lambda>cells. zip (map fst (df_columns df)) cells) (df_rows df)"

function chunks :: "nat \<Rightarrow> 'a list \<Rightarrow> 'a list list" where
  "chunks n xs = (if n = 0 \<or> xs = [] then [] else take n xs # chunks n (drop n xs))"
  by pat_completeness auto
termination
  by (relation "measure (\<lambda>(n, xs). length xs)") auto

declare chunks.simps [simp del]

text \<open>
  One statement sent to the database. It takes the next outcome the environment has
  in store: on a fault the statement fails and changes nothing, otherwise it takes
  effect. What earlier statements did stays done.
\<close>

definition pop_fault :: "db \<Rightarrow> string option \<times> db" where
  "pop_fault d = (case faults d of [] \<Rightarrow> (None, d) | f # rest \<Rightarrow> (f, d\<lparr>faults := rest\<rparr>))"

definition execute :: "(db \<Rightarrow> db) \<Rightarrow> db \<Rightarrow> (error + unit) \<times> db" where
  "execute effect d =
     (case pop_fault d of
        (Some msg, d') \<Rightarrow> (Inl (DBError msg), d')
      | (None, d') \<Rightarrow> (Inr (), effect d'))"

definition set_table :: "string \<Rightarrow> table option \<Rightarrow> db \<Rightarrow> db" where
  "set_table name t d = d\<lparr>tables := (tables d)(name := t)\<rparr>"

definition append_rows :: "string \<Rightarrow> row list \<Rightarrow> db \<Rightarrow> db" where
  "append_rows name chunk d =
     (case tables d name of
        None \<Rightarrow> d
      | Some t \<Rightarrow> set_table name (Some (t\<lparr>t_rows := t_rows t @ chunk\<rparr>)) d)"

text \<open>The rows go in chunk by chunk, one \<^verbatim>\<open>INSERT\<close> each; the first that fails ends it.\<close>

fun insert_chunks :: "string \<Rightarrow> row list list \<Rightarrow> db \<Rightarrow> (error + unit) \<times> db" where
  "insert_chunks name [] d = (Inr (), d)"
| "insert_chunks name (chunk # cs) d =
     (case execute (append_rows name chunk) d of
        (Inl err, d') \<Rightarrow> (Inl err, d')
      | (Inr u, d') \<Rightarrow> insert_chunks name cs d')"

text \<open>
  The table is made ready first: created when absent, dropped and then created for
  \<^verbatim>\<open>'replace'\<close>, left alone for \<^verbatim>\<open>'append'\<close>.
\<close>

definition prepare ::
  "string \<Rightarrow> string \<Rightarrow> (string \<times> sql_type) list \<Rightarrow> dataframe \<Rightarrow> db \<Rightarrow> (error + unit) \<times> db"
where
  "prepare name if_exists dtype df d =
     (case tables d name of
        None \<Rightarrow> execute (set_table name (Some (create_table dtype df))) d
      | Some t \<Rightarrow>
          if if_exists = ''fail'' then
            (Inl (ValueError (''Table '' @ name @ '' already exists.'')), d)
          else if if_exists = ''replace'' then
            (case execute (set_table name None) d of
               (Inl err, d') \<Rightarrow> (Inl err, d')
             | (Inr u, d') \<Rightarrow> execute (set_table name (Some (create_table dtype df))) d')
          else if set (map fst (df_columns df)) \<subseteq> set (map fst (t_columns t)) then (Inr (), d)
          else (Inl (DBError ''Unknown column''), d))"

definition to_sql ::
  "string \<Rightarrow> string \<Rightarrow> (string \<times> sql_type) list \<Rightarrow> nat \<Rightarrow> dataframe \<Rightarrow> db \<Rightarrow> (error + unit) \<times> db"
where
  "to_sql name if_exists dtype chunksize df d =
     (if if_exists \<notin> {''fail'', ''replace'', ''append''} then
        (Inl (ValueError (if_exists @ '' is not valid for if_exists'')), d)
      else
        (case prepare name if_exists dtype df (d\<lparr>oplog := oplog d @ [ToSql name if_exists]\<rparr>) of
           (Inl err, d') \<Rightarrow> (Inl err, d')
         | (Inr u, d') \<Rightarrow> insert_chunks name (chunks chunksize (to_rows df)) d'))"

subsection \<open>db\_utils\<close>

text \<open>
  Modelled from the spec: \<^verbatim>\<open>db_utils.is_table_exist\<close> is not among the sources; it is
  the store's \<^verbatim>\<open>table_exists(name) -> bool\<close>.
\<close>

definition is_table_exist :: "db \<Rightarrow> string \<Rightarrow> bool" where
  "is_table_exist d name = (tables d name \<noteq> None)"

text \<open>
  Modelled from the spec: \<^verbatim>\<open>db_utils.create_db_index\<close> is not among the sources. After
  a write it checks whether the expected secondary indexes exist on the table and
  creates the missing ones; one that is present is left alone. Creating them is a
  statement like any other and may fail. Which columns are expected for a row-set the
  spec does not say: they are the parameter \<open>ix\<close>.
\<close>

definition add_indexes :: "string \<Rightarrow> string list \<Rightarrow> db \<Rightarrow> db" where
  "add_indexes name cols d =
     (case tables d name of
        None \<Rightarrow> d
      | Some t \<Rightarrow> set_table name (Some (t\<lparr>t_indexes := t_indexes t @ cols\<rparr>)) d)"

definition create_db_index ::
  "(dataframe \<Rightarrow> string list) \<Rightarrow> string \<Rightarrow> dataframe \<Rightarrow> db \<Rightarrow> (error + unit) \<times> db"
where
  "create_db_index ix name df d =
     (case tables d name of
        None \<Rightarrow> (Inr (), d)
      | Some t \<Rightarrow>
          (let missing = filter (\<lambda>c. c \<notin> set (t_indexes t)) (remdups (ix df)) in
           if missing = [] then (Inr (), d)
           else execute (add_indexes name missing)
                  (d\<lparr>oplog := oplog d @ [CreateIndex name missing]\<rparr>)))"

subsection \<open>to\_db and TradeCalendar\<close>

text \<open>
  \<^verbatim>\<open>to_db(self, df, if_exists='append')\<close>: one call of \<^verbatim>\<open>df.to_sql\<close> with the types of
  \<^verbatim>\<open>dtype_dic\<close> and a chunk size of 1000, then the index check. Nothing catches what
  either raises.
\<close>

definition dtype_dic :: "(string \<times> sql_type) list" where
  "dtype_dic = [(''ts_code'', VARCHAR 9), (''trade_date'', VARCHAR 8), (''ann_date'', VARCHAR 8)]"

definition to_db ::
  "(dataframe \<Rightarrow> string list) \<Rightarrow> downloader \<Rightarrow> dataframe \<Rightarrow> string \<Rightarrow> db \<Rightarrow> (error + unit) \<times> db"
where
  "to_db ix self df if_exists d =
     (case to_sql (table_name self) if_exists dtype_dic 1000 df d of
        (Inl err, d') \<Rightarrow> (Inl err, d')
      | (Inr u, d') \<Rightarrow> create_db_index ix (table_name self) df d')"

text \<open>
  A table keeps the explicit types when each of its columns that \<^verbatim>\<open>dtype_dic\<close> names
  has the type given there.
\<close>

definition explicit_types :: "table \<Rightarrow> bool" where
  "explicit_types t =
     (\<forall>(c, ty) \<in> set (t_columns t). case map_of dtype_dic c of None \<Rightarrow> True | Some ety \<Rightarrow> ty = ety)"

definition TradeCalendar :: downloader where
  "TradeCalendar = init ''trade_cal'' ''cal_date''"

text \<open>
  \<^verbatim>\<open>TradeCalendar.download\<close>: \<open>trade_cal\<close> is what \<^verbatim>\<open>self.pro.trade_cal()\<close> answers, the
  rows or the cause it raises; the call is made directly, not through \<^verbatim>\<open>retry_call\<close>.
\<close>

definition download ::
  "(dataframe \<Rightarrow> string list) \<Rightarrow> exn + dataframe \<Rightarrow> downloader \<Rightarrow> db \<Rightarrow> (error + unit) \<times> db"
where
  "download ix trade_cal self d =
     (case trade_cal of
        Inl x \<Rightarrow> (Inl (ProviderError x), d)
      | Inr df \<Rightarrow> to_db ix self df ''replace'' d)"

subsection \<open>get\_start\_date\<close>

text \<open>
  \<^verbatim>\<open>select max(col) from table\<close>: the greatest of the non-NULL values of the column,
  NULL when there is none; the values are text and compare as text. A column the
  table does not have is an error of the database.
\<close>

fun column_values :: "string \<Rightarrow> row list \<Rightarrow> string list" where
  "column_values c [] = []"
| "column_values c (r # rs) =
     (case map_of r c of
        Some (Some v) \<Rightarrow> v # column_values c rs
      | _ \<Rightarrow> column_values c rs)"

fun max_of :: "string list \<Rightarrow> cell" where
  "max_of [] = None"
| "max_of (v # vs) = Some (fold max vs v)"

definition select_max :: "string \<Rightarrow> table \<Rightarrow> error + cell" where
  "select_max c t =
     (if c \<in> set (map fst (t_columns t)) then Inr (max_of (column_values c (t_rows t)))
      else Inl (DBError ''Unknown column''))"

text \<open>
  Modelled from the spec: \<^verbatim>\<open>utils.tomorrow\<close> is not among the sources. The spec has
  the watermark resolve to the stored maximum plus one day, over the fixed-width
  \<^verbatim>\<open>YYYYMMDD\<close> text of a date (\<^verbatim>\<open>20080103\<close> gives \<^verbatim>\<open>20080104\<close>). Text that is not a
  date of the Gregorian calendar of the years 1 to 9999 is an error.
\<close>

definition is_leap :: "nat \<Rightarrow> bool" where
  "is_leap y = (y mod 4 = 0 \<and> (y mod 100 \<noteq> 0 \<or> y mod 400 = 0))"

definition days_in_month :: "nat \<Rightarrow> nat \<Rightarrow> nat" where
  "days_in_month y m =
     (if m = 2 then (if is_leap y then 29 else 28)
      else if m = 4 \<or> m = 6 \<or> m = 9 \<or> m = 11 then 30 else 31)"

definition digit :: "char \<Rightarrow> nat option" where
  "digit c = (if CHR ''0'' \<le> c \<and> c \<le> CHR ''9'' then Some (of_char c - 48) else None)"

fun parse_nat :: "nat \<Rightarrow> string \<Rightarrow> nat option" where
  "parse_nat acc [] = Some acc"
| "parse_nat acc (c # cs) =
     (case digit c of None \<Rightarrow> None | Some v \<Rightarrow> parse_nat (acc * 10 + v) cs)"

definition valid_date :: "nat \<times> nat \<times> nat \<Rightarrow> bool" where
  "valid_date ymd = (case ymd of (y, m, d) \<Rightarrow>
     1 \<le> y \<and> y \<le> 9999 \<and> 1 \<le> m \<and> m \<le> 12 \<and> 1 \<le> d \<and> d \<le> days_in_month y m)"

definition parse_date :: "string \<Rightarrow> (nat \<times> nat \<times> nat) option" where
  "parse_date s =
     (if length s = 8 then
        (case (parse_nat 0 (take 4 s), parse_nat 0 (take 2 (drop 4 s)), parse_nat 0 (drop 6 s)) of
           (Some y, Some m, Some d) \<Rightarrow> if valid_date (y, m, d) then Some (y, m, d) else None
         | _ \<Rightarrow> None)
      else None)"

fun next_day :: "nat \<times> nat \<times> nat \<Rightarrow> nat \<times> nat \<times> nat" where
  "next_day (y, m, d) =
     (if d < days_in_month y m then (y, m, d + 1)
      else if m < 12 then (y, m + 1, 1)
      else (y + 1, 1, 1))"

fun pad :: "nat \<Rightarrow> nat \<Rightarrow> string" where
  "pad 0 n = []"
| "pad (Suc k) n = pad k (n div 10) @ [char_of (48 + n mod 10)]"

fun format_date :: "nat \<times> nat \<times> nat \<Rightarrow> string" where
  "format_date (y, m, d) = pad 4 y @ pad 2 m @ pad 2 d"

definition tomorrow :: "string \<Rightarrow> error + string" where
  "tomorrow s =
     (case parse_date s of
        None \<Rightarrow> Inl (ValueError s)
      | Some ymd \<Rightarrow>
          if valid_date (next_day ymd) then Inr (format_date (next_day ymd))
          else Inl (ValueError s))"

text \<open>\<^verbatim>\<open>pd.read_sql('select max(col) from table', engine)\<close>, the single value it holds.\<close>

definition read_sql_max :: "string \<Rightarrow> string \<Rightarrow> db \<Rightarrow> error + cell" where
  "read_sql_max c name d =
     (case tables d name of
        None \<Rightarrow> Inl (DBError ''No such table'')
      | Some t \<Rightarrow> select_max c t)"

definition get_start_date :: "downloader \<Rightarrow> db \<Rightarrow> error + string" where
  "get_start_date self d =
     (if \<not> is_table_exist d (table_name self) then Inr EALIEST_DATE
      else
        (case read_sql_max (date_column_name self) (table_name self) d of
           Inl err \<Rightarrow> Inl err
         | Inr None \<Rightarrow> Inr EALIEST_DATE
         | Inr (Some latest_date) \<Rightarrow> tomorrow latest_date))"

text \<open>
  The number of a day, counted from the first day of year 1: the measure against
  which the day after is one more.
\<close>

definition days_before_year :: "nat \<Rightarrow> nat" where
  "days_before_year y = 365 * (y - 1) + (y - 1) div 4 - (y - 1) div 100 + (y - 1) div 400"

definition days_before_month :: "nat \<Rightarrow> nat \<Rightarrow> nat" where
  "days_before_month y m = sum_list (map (days_in_month y) [1..<m])"

fun ordinal :: "nat \<times> nat \<times> nat \<Rightarrow> nat" where
  "ordinal (y, m, d) = days_before_year y + days_before_month y m + d"

subsection \<open>Concrete data\<close>

text \<open>
  The store before anything was written, a trading calendar of three days, and a
  dataset with the key fields \<^verbatim>\<open>ts_code\<close> and \<^verbatim>\<open>trade_date\<close> with two of its rows.
\<close>

definition empty_store :: db where
  "empty_store = \<lparr>tables = Map.empty, oplog = [], faults = []\<rparr>"

definition cal_rows :: dataframe where
  "cal_rows =
     \<lparr>df_columns = [(''exchange'', ObjectT), (''cal_date'', ObjectT), (''is_open'', Int64T)],
      df_rows = [[Some ''SSE'', Some ''20080101'', Some ''0''],
                 [Some ''SSE'', Some ''20080102'', Some ''1''],
                 [Some ''SSE'', Some ''20080103'', Some ''1'']]\<rparr>"

definition daily :: downloader where
  "daily = init ''daily'' ''trade_date''"

definition daily_rows :: dataframe where
  "daily_rows =
     \<lparr>df_columns = [(''ts_code'', ObjectT), (''trade_date'', ObjectT), (''vol'', Int64T)],
      df_rows = [[Some ''000001.SZ'', Some ''20080102'', Some ''1200''],
                 [Some ''000001.SZ'', Some ''20080103'', Some ''900'']]\<rparr>"

definition key_index :: "dataframe \<Rightarrow> string list" where
  "key_index df = filter (\<lambda>c. c \<in> set (map fst dtype_dic)) (map fst (df_columns df))"

subsection \<open>Properties of retry\_call\<close>

lemma retry_call_exhausted:
  "RETRY \<le> retry_count self \<Longrightarrow>
   retry_call func kw self e = (Inl (RuntimeError RETRY_FAILED), self, e, [])"
  by (simp add: retry_call.simps)

lemma retry_call_success:
  "retry_count self < RETRY \<Longrightarrow> func kw e = (Inr df, e') \<Longrightarrow>
   retry_call func kw self e = (Inr df, self\<lparr>retry_count := 0\<rparr>, e', [Call kw])"
  by (simp add: retry_call.simps)

lemma retry_call_failure:
  "retry_count self < RETRY \<Longrightarrow> func kw e = (Inl x, e') \<Longrightarrow>
   retry_call func kw self e =
     (case retry_call func kw (self\<lparr>retry_count := retry_count self + 1\<rparr>) e' of
        (r, self', e'', t) \<Rightarrow>
          (r, self', e'', Call kw # Sleep (pow2 (retry_count self) * 30) # t))"
  by (subst retry_call.simps) (simp add: Let_def)

text \<open>
  \<open>k\<close> failed attempts in a row, while the budget lasts, unroll the loop \<open>k\<close> times.
\<close>

lemma retry_call_unroll:
  "retry_count self + int k \<le> RETRY \<Longrightarrow>
   \<forall>i<k. isl (fst (func kw (env_after func kw e i))) \<Longrightarrow>
   retry_call func kw self e =
     (case retry_call func kw (self\<lparr>retry_count := retry_count self + int k\<rparr>)
             (env_after func kw e k) of
        (r, self', e'', t) \<Rightarrow> (r, self', e'', backoff kw (retry_count self) k @ t))"
proof (induction k arbitrary: self e)
  case 0
  then show ?case by simp
next
  case (Suc k)
  from Suc.prems(1) have lt: "retry_count self < RETRY" by simp
  from Suc.prems(2) have "isl (fst (func kw (env_after func kw e 0)))" by blast
  then obtain x e' where f: "func kw e = (Inl x, e')"
    by (cases "func kw e") (auto simp: isl_def)
  let ?s = "self\<lparr>retry_count := retry_count self + 1\<rparr>"
  have a: "retry_count ?s + int k \<le> RETRY" using Suc.prems(1) by simp
  have b: "\<forall>i<k. isl (fst (func kw (env_after func kw e' i)))"
  proof (intro allI impI)
    fix i assume "i < k"
    then have "isl (fst (func kw (env_after func kw e (Suc i))))"
      using Suc.prems(2) [rule_format, of "Suc i"] by simp
    then show "isl (fst (func kw (env_after func kw e' i)))" using f by simp
  qed
  have c: "?s\<lparr>retry_count := retry_count ?s + int k\<rparr>
         = self\<lparr>retry_count := retry_count self + int (Suc k)\<rparr>" by simp
  show ?case
    unfolding retry_call_failure [where func = func, OF lt f] Suc.IH [OF a b] c
    using f by (simp split: prod.splits)
qed

lemma slept_append: "slept (s @ t) = slept s + slept t"
  by (induction s rule: slept.induct) auto

lemma calls_append: "calls (s @ t) = calls s + calls t"
  by (induction s rule: calls.induct) auto

lemma calls_backoff: "calls (backoff kw c k) = k"
  by (induction k arbitrary: c) auto

lemma slept_backoff:
  "slept (backoff kw c k) = (\<Sum>i<k. pow2 (c + int i) * 30)"
proof (induction k arbitrary: c)
  case 0 show ?case by simp
next
  case (Suc k)
  have "(\<Sum>i<Suc k. pow2 (c + int i) * 30) = pow2 c * 30 + (\<Sum>i<k. pow2 (c + int (Suc i)) * 30)"
    by (subst sum.lessThan_Suc_shift) simp
  then show ?case using Suc.IH [of "c + 1"] by (simp add: ac_simps)
qed

lemma slept_backoff_0: "slept (backoff kw 0 k) = (\<Sum>i<k. 2 ^ i * 30)"
  by (simp add: slept_backoff pow2_def)

lemma retry_call_raises_exhausted:
  "retry_call func kw self e = (Inl err, self', e', t) \<Longrightarrow>
   RETRY \<le> retry_count self' \<and> err = RuntimeError RETRY_FAILED"
proof (induction func kw self e arbitrary: t rule: retry_call.induct)
  case (1 func kw self e)
  show ?case
  proof (cases "retry_count self < RETRY")
    case False
    with "1.prems" show ?thesis by (simp add: retry_call.simps)
  next
    case True
    obtain res e1 where f: "func kw e = (res, e1)" by (cases "func kw e")
    show ?thesis
    proof (cases res)
      case (Inr df)
      with True f "1.prems" show ?thesis by (simp add: retry_call_success)
    next
      case (Inl x)
      let ?s = "self\<lparr>retry_count := retry_count self + 1\<rparr>"
      obtain r s2 e2 t2 where rc: "retry_call func kw ?s e1 = (r, s2, e2, t2)"
        by (cases "retry_call func kw ?s e1") auto
      from True f Inl rc "1.prems" have "r = Inl err" "s2 = self'" "e2 = e'"
        by (simp_all add: retry_call_failure [where func = func])
      with rc have "retry_call func kw ?s e1 = (Inl err, self', e', t2)" by simp
      then show ?thesis
        by (rule "1.IH" [OF True f [symmetric] Inl refl])
    qed
  qed
qed

lemma retry_call_all_fail:
  assumes c: "retry_count self \<le> RETRY"
    and f: "\<forall>i < nat (RETRY - retry_count self). isl (fst (func kw (env_after func kw e i)))"
  shows "retry_call func kw self e =
     (Inl (RuntimeError RETRY_FAILED), self\<lparr>retry_count := RETRY\<rparr>,
      env_after func kw e (nat (RETRY - retry_count self)),
      backoff kw (retry_count self) (nat (RETRY - retry_count self)))"
proof -
  let ?k = "nat (RETRY - retry_count self)"
  have k: "retry_count self + int ?k = RETRY" using c by simp
  have "retry_count self + int ?k \<le> RETRY" using k by simp
  from retry_call_unroll [OF this f] show ?thesis
    unfolding k by (simp add: retry_call_exhausted)
qed

lemma env_after_flaky: "env_after (flaky k x df) kw n i = n + i"
  by (induction i arbitrary: n) (simp_all add: flaky_def)

text \<open>
  Claim C4, amended. On an instance whose attempt count is 0, the state \<^verbatim>\<open>__init__\<close> and
  every successful call leave behind, a provider call that fails exactly \<open>k\<close> times and
  then succeeds, with \<open>k\<close> below the maximum attempt count, makes \<^verbatim>\<open>retry_call\<close> return
  the successful call's result, and the time slept in total is the sum of \<open>2^i * 30\<close>
  seconds for \<open>i\<close> in \<open>[0, k)\<close>. The provider is called \<open>k + 1\<close> times, and the attempt
  count is 0 again afterwards.
\<close>

theorem retry_call_fails_then_succeeds:
  assumes "retry_count self = 0" and "int k < RETRY"
    and "\<forall>i<k. isl (fst (func kw (env_after func kw e i)))"
    and "fst (func kw (env_after func kw e k)) = Inr df"
  shows "case retry_call func kw self e of (r, self', e', t) \<Rightarrow>
           r = Inr df \<and> slept t = (\<Sum>i<k. 2 ^ i * 30) \<and> calls t = Suc k \<and> retry_count self' = 0"
proof -
  let ?s = "self\<lparr>retry_count := retry_count self + int k\<rparr>"
  have a: "retry_count self + int k \<le> RETRY" using assms(1,2) by simp
  have lt: "retry_count ?s < RETRY" using assms(1,2) by simp
  obtain e1 where f: "func kw (env_after func kw e k) = (Inr df, e1)"
    using assms(4) by (cases "func kw (env_after func kw e k)") auto
  show ?thesis
    unfolding retry_call_unroll [OF a assms(3)] retry_call_success [where func = func, OF lt f]
    using assms(1) by (simp add: slept_append calls_append calls_backoff slept_backoff_0)
qed

theorem retry_call_fails_then_succeeds_witness:
  "case retry_call (flaky 2 ''timeout'' ''rows'') [(''ts_code'', ''000001.SZ'')]
          (init ''daily'' ''trade_date'') 0 of
     (r, self', e', t) \<Rightarrow> r = Inr ''rows'' \<and> slept t = 30 + 60 \<and> calls t = 3 \<and> retry_count self' = 0"
proof -
  let ?f = "flaky 2 ''timeout'' ''rows'' :: (nat, string) provider"
  let ?kw = "[(''ts_code'', ''000001.SZ'')]"
  have h1: "retry_count (init ''daily'' ''trade_date'') = 0" by (simp add: init_def)
  have h2: "int 2 < RETRY" by (simp add: RETRY_def)
  have h3: "\<forall>i<2. isl (fst (?f ?kw (env_after ?f ?kw 0 i)))"
    by (simp add: env_after_flaky flaky_def)
  have h4: "fst (?f ?kw (env_after ?f ?kw 0 2)) = Inr ''rows''"
    by (simp add: env_after_flaky flaky_def)
  show ?thesis
    using retry_call_fails_then_succeeds [OF h1 h2 h3 h4] by (simp add: numeral_2_eq_2 numeral_3_eq_3)
qed

text \<open>
  Claim C4 as stated fails, for it depends on the attempt count the instance brings
  along. A provider that fails once and then succeeds: on the instance an exhausted
  invocation leaves (count 5) it is never called and the error is raised; entered at
  count 1 it succeeds after a sleep of 60 seconds, not 30.
\<close>

theorem retry_call_backoff_depends_on_entry_count:
  "fst (snd (retry_call (failing ''timeout'' :: (unit, string) provider) []
               (init ''daily'' ''trade_date'') ()))
     = (init ''daily'' ''trade_date'')\<lparr>retry_count := 5\<rparr> \<and>
   retry_call (flaky 1 ''timeout'' ''rows'') [] ((init ''daily'' ''trade_date'')\<lparr>retry_count := 5\<rparr>) 0
     = (Inl (RuntimeError RETRY_FAILED), (init ''daily'' ''trade_date'')\<lparr>retry_count := 5\<rparr>, 0, []) \<and>
   retry_call (flaky 1 ''timeout'' ''rows'') [] ((init ''daily'' ''trade_date'')\<lparr>retry_count := 1\<rparr>) 0
     = (Inr ''rows'', (init ''daily'' ''trade_date'')\<lparr>retry_count := 0\<rparr>, 2,
        [Call [], Sleep 60, Call []])"
  by code_simp

text \<open>
  Claim C3, amended. On an instance whose attempt count is 0, a provider call whose
  every attempt fails is tried exactly 5 times and no more, and then \<^verbatim>\<open>retry_call\<close>
  raises to its caller a \<open>RuntimeError\<close> with a fixed message.
\<close>

theorem retry_call_always_failing:
  assumes "retry_count self = 0"
    and "\<forall>i<5. isl (fst (func kw (env_after func kw e i)))"
  shows "case retry_call func kw self e of (r, self', e', t) \<Rightarrow>
           r = Inl (RuntimeError RETRY_FAILED) \<and> calls t = 5"
proof -
  have c: "retry_count self \<le> RETRY" using assms(1) by (simp add: RETRY_def)
  have k: "nat (RETRY - retry_count self) = 5" using assms(1) by (simp add: RETRY_def)
  have f: "\<forall>i < nat (RETRY - retry_count self). isl (fst (func kw (env_after func kw e i)))"
    unfolding k by (rule assms(2))
  show ?thesis
    unfolding retry_call_all_fail [OF c f] k by (simp add: calls_backoff)
qed

theorem retry_call_always_failing_witness:
  "case retry_call (failing ''quota exceeded'' :: (unit, string) provider)
          [(''ts_code'', ''000001.SZ'')] (init ''daily'' ''trade_date'') () of
     (r, self', e', t) \<Rightarrow> r = Inl (RuntimeError RETRY_FAILED) \<and> calls t = 5"
proof -
  let ?f = "failing ''quota exceeded'' :: (unit, string) provider"
  let ?kw = "[(''ts_code'', ''000001.SZ'')]"
  have h1: "retry_count (init ''daily'' ''trade_date'') = 0" by (simp add: init_def)
  have h2: "\<forall>i<5. isl (fst (?f ?kw (env_after ?f ?kw () i)))"
    by (simp add: failing_def)
  show ?thesis
    using retry_call_always_failing [OF h1 h2] by simp
qed

text \<open>
  Claim C3 as stated fails: two exhausted invocations with different failure causes and
  different call parameters raise the very same error value, so the error carries
  neither.
\<close>

theorem retry_call_error_carries_nothing:
  "fst (retry_call (failing ''quota exceeded'' :: (unit, string) provider)
          [(''ts_code'', ''000001.SZ'')] (init ''daily'' ''trade_date'') ())
     = Inl (RuntimeError RETRY_FAILED) \<and>
   fst (retry_call (failing ''connection reset'' :: (unit, string) provider)
          [(''ts_code'', ''600000.SH'')] (init ''daily'' ''trade_date'') ())
     = Inl (RuntimeError RETRY_FAILED)"
proof -
  have c: "retry_count (init ''daily'' ''trade_date'') \<le> RETRY" by (simp add: init_def RETRY_def)
  show ?thesis
    by (simp add: retry_call_all_fail [OF c] failing_def)
qed

text \<open>
  Claim C10, amended. On an instance whose attempt count is 0, when every attempt
  fails, \<^verbatim>\<open>retry_call\<close> sleeps the backoff delay after the final failed attempt as well:
  the trace is five calls, each followed by its sleep of \<open>2^i * 30\<close> seconds, the last
  event before the error is raised is the sleep of \<open>2^4 * 30\<close> seconds, and no call
  follows it.
\<close>

theorem retry_call_sleeps_after_last_failure:
  assumes "retry_count self = 0"
    and "\<forall>i<5. isl (fst (func kw (env_after func kw e i)))"
  shows "case retry_call func kw self e of (r, self', e', t) \<Rightarrow>
           r = Inl (RuntimeError RETRY_FAILED) \<and>
           t = [Call kw, Sleep 30, Call kw, Sleep 60, Call kw, Sleep 120,
                Call kw, Sleep 240, Call kw, Sleep 480] \<and>
           slept t = (\<Sum>i<5. 2 ^ i * 30) \<and> last t = Sleep (2 ^ 4 * 30)"
proof -
  have c: "retry_count self \<le> RETRY" using assms(1) by (simp add: RETRY_def)
  have k: "nat (RETRY - retry_count self) = 5" using assms(1) by (simp add: RETRY_def)
  have f: "\<forall>i < nat (RETRY - retry_count self). isl (fst (func kw (env_after func kw e i)))"
    unfolding k by (rule assms(2))
  have b: "backoff kw 0 5 = [Call kw, Sleep 30, Call kw, Sleep 60, Call kw, Sleep 120,
                Call kw, Sleep 240, Call kw, Sleep 480]"
    by (simp add: eval_nat_numeral pow2_def)
  have s: "(\<Sum>i<5. 2 ^ i * (30::int)) = 930"
    by (simp add: eval_nat_numeral)
  show ?thesis
    unfolding retry_call_all_fail [OF c f] k by (simp add: assms(1) b s)
qed

theorem retry_call_sleeps_after_last_failure_witness:
  "case retry_call (failing ''timeout'') [] (init ''daily'' ''trade_date'') () of
     (r, self', e', t) \<Rightarrow>
        r = (Inl (RuntimeError RETRY_FAILED) :: error + string) \<and> slept t = 930 \<and> last t = Sleep 480"
proof -
  let ?f = "failing ''timeout'' :: (unit, string) provider"
  have h1: "retry_count (init ''daily'' ''trade_date'') = 0" by (simp add: init_def)
  have h2: "\<forall>i<5. isl (fst (?f [] (env_after ?f [] () i)))"
    by (simp add: failing_def)
  show ?thesis
    using retry_call_sleeps_after_last_failure [OF h1 h2] by (simp split: prod.splits)
qed

text \<open>
  Claim C10 as stated fails, for it depends on the attempt count the instance brings
  along. A provider that always fails: on the instance an exhausted invocation leaves
  (count 5) nothing is called and nothing slept; entered at count 3 the sleeps are
  those of 240 and 480 seconds only.
\<close>

theorem retry_call_sleeps_depend_on_entry_count:
  "fst (snd (retry_call (failing ''timeout'' :: (unit, string) provider) []
               (init ''daily'' ''trade_date'') ()))
     = (init ''daily'' ''trade_date'')\<lparr>retry_count := 5\<rparr> \<and>
   retry_call (failing ''timeout'' :: (unit, string) provider) []
       ((init ''daily'' ''trade_date'')\<lparr>retry_count := 5\<rparr>) ()
     = (Inl (RuntimeError RETRY_FAILED), (init ''daily'' ''trade_date'')\<lparr>retry_count := 5\<rparr>, (), []) \<and>
   retry_call (failing ''timeout'' :: (unit, string) provider) []
       ((init ''daily'' ''trade_date'')\<lparr>retry_count := 3\<rparr>) ()
     = (Inl (RuntimeError RETRY_FAILED), (init ''daily'' ''trade_date'')\<lparr>retry_count := 5\<rparr>, (),
        [Call [], Sleep 240, Call [], Sleep 480])"
  by code_simp

text \<open>
  Claim C9. Once an invocation of \<^verbatim>\<open>retry_call\<close> has raised (the retry budget is
  exhausted), the attempt count of the instance is at the maximum, and a later
  invocation on that instance, with any provider function, arguments and provider
  state, raises the same error at once: it makes no provider call, does not sleep, and
  leaves the instance as it was, so the same holds for the invocation after it.
\<close>

theorem retry_call_after_exhaustion:
  assumes "retry_call func kw self e = (Inl err, self', e', t)"
  shows "retry_call func2 kw2 self' e2 = (Inl (RuntimeError RETRY_FAILED), self', e2, []) \<and>
         calls (snd (snd (snd (retry_call func2 kw2 self' e2)))) = 0 \<and>
         RETRY \<le> retry_count self'"
proof -
  from retry_call_raises_exhausted [OF assms] have "RETRY \<le> retry_count self'" by simp
  then show ?thesis by (simp add: retry_call_exhausted)
qed

theorem retry_call_after_exhaustion_witness:
  "retry_call (failing ''timeout'' :: (unit, string) provider) [] (init ''daily'' ''trade_date'') ()
     = (Inl (RuntimeError RETRY_FAILED), (init ''daily'' ''trade_date'')\<lparr>retry_count := 5\<rparr>, (),
        backoff [] 0 5) \<and>
   retry_call (succeeding ''rows'') [(''ts_code'', ''000001.SZ'')]
       ((init ''daily'' ''trade_date'')\<lparr>retry_count := 5\<rparr>) ()
     = (Inl (RuntimeError RETRY_FAILED), (init ''daily'' ''trade_date'')\<lparr>retry_count := 5\<rparr>, (), [])"
proof -
  have c: "retry_count (init ''daily'' ''trade_date'') \<le> RETRY" by (simp add: init_def RETRY_def)
  have r: "retry_call (failing ''timeout'' :: (unit, string) provider) [] (init ''daily'' ''trade_date'') ()
     = (Inl (RuntimeError RETRY_FAILED), (init ''daily'' ''trade_date'')\<lparr>retry_count := 5\<rparr>, (),
        backoff [] 0 5)"
    by (simp add: retry_call_all_fail [OF c] failing_def) (simp add: init_def RETRY_def)
  show ?thesis
    using retry_call_after_exhaustion [OF r, of "succeeding ''rows''" "[(''ts_code'', ''000001.SZ'')]" "()"] r
    by simp
qed

text \<open>
  Claim C2 against the code. After an invocation that exhausted the budget the attempt
  count of the instance is 5, not 0, and the next invocation, with a provider that would
  succeed, starts from that count: the provider is never called and the error is raised.
\<close>

theorem retry_call_count_survives_exhaustion:
  "case retry_call (failing ''timeout'' :: (unit, string) provider) [(''ts_code'', ''000001.SZ'')]
          (init ''daily'' ''trade_date'') () of
     (r1, self1, e1, t1) \<Rightarrow>
        retry_count self1 = 5 \<and>
        retry_call (succeeding ''rows'') [(''ts_code'', ''000001.SZ'')] self1 e1
          = (Inl (RuntimeError RETRY_FAILED), self1, e1, [])"
proof -
  have c: "retry_count (init ''daily'' ''trade_date'') \<le> RETRY" by (simp add: init_def RETRY_def)
  show ?thesis
    by (simp add: retry_call_all_fail [OF c] failing_def retry_call_exhausted)
       (simp add: RETRY_def)
qed

text \<open>
  Claim C1 against the code. Two invocations in a row on a fresh instance, each with a
  provider that succeeds, call the provider twice with nothing in between: the trace
  holds no wait at all, although the instance carries a call interval of 0.3 seconds.
\<close>

theorem retry_call_not_throttled:
  "case retry_call (succeeding df1) kw1 (init tn dc) e of
     (r1, self1, e1, t1) \<Rightarrow>
       (case retry_call (succeeding df2) kw2 self1 e1 of
          (r2, self2, e2, t2) \<Rightarrow>
             r1 = Inr df1 \<and> r2 = Inr df2 \<and> t1 @ t2 = [Call kw1, Call kw2] \<and>
             slept (t1 @ t2) = 0 \<and> call_interval self1 = 3 / 10)"
proof -
  have a: "retry_count (init tn dc) < RETRY" by (simp add: init_def RETRY_def)
  have b: "retry_count ((init tn dc)\<lparr>retry_count := 0\<rparr>) < RETRY" by (simp add: RETRY_def)
  have f1: "succeeding df1 kw1 e = (Inr df1, e)" by (simp add: succeeding_def)
  have f2: "succeeding df2 kw2 e = (Inr df2, e)" by (simp add: succeeding_def)
  show ?thesis
    unfolding retry_call_success [where func = "succeeding df1", OF a f1]
    by (simp add: retry_call_success [where func = "succeeding df2", OF b f2])
       (simp add: init_def CALL_INTERVAL_def MAX_PER_SECOND_def)
qed

subsection \<open>Properties of the store operations\<close>

lemma concat_chunks: "0 < n \<Longrightarrow> concat (chunks n xs) = xs"
proof (induction n xs rule: chunks.induct)
  case (1 n xs)
  show ?case
  proof (cases "xs = []")
    case True
    then show ?thesis by (simp add: chunks.simps)
  next
    case False
    with "1.prems" have "chunks n xs = take n xs # chunks n (drop n xs)"
      by (subst chunks.simps) simp
    moreover have "concat (chunks n (drop n xs)) = drop n xs"
      using "1.IH" "1.prems" False by simp
    ultimately show ?thesis by simp
  qed
qed

lemma length_to_rows: "length (to_rows df) = length (df_rows df)"
  by (simp add: to_rows_def)

lemma mod_0_coarser: "k dvd n \<Longrightarrow> (a::nat) mod n = 0 \<Longrightarrow> a mod k = 0"
  by (metis mod_mod_cancel mod_0)

lemma year_length:
  fixes A B C a b c x :: nat
  assumes "B \<le> A" and "a \<le> 1" and "b \<le> a" and "c \<le> b"
  shows "365 * Suc x + (A + a) - (B + b) + (C + c) = 365 * x + A - B + C + (365 + a - b + c)"
proof -
  have "365 * Suc x = 365 * x + 365" by simp
  then show ?thesis using assms by linarith
qed

lemma days_before_year_Suc:
  assumes "1 \<le> y"
  shows "days_before_year (Suc y) = days_before_year y + (if is_leap y then 366 else 365)"
proof -
  from assms obtain x where y: "y = Suc x" by (cases y) auto
  define a :: nat where "a = (if Suc x mod 4 = 0 then 1 else 0)"
  define b :: nat where "b = (if Suc x mod 100 = 0 then 1 else 0)"
  define c :: nat where "c = (if Suc x mod 400 = 0 then 1 else 0)"
  have d: "x div 100 \<le> x div 4" by (rule div_le_mono2) simp_all
  have e: "Suc x mod 100 = 0 \<Longrightarrow> Suc x mod 4 = 0" by (rule mod_0_coarser [of 4 100]) simp_all
  have f: "Suc x mod 400 = 0 \<Longrightarrow> Suc x mod 100 = 0" by (rule mod_0_coarser [of 100 400]) simp_all
  have s4: "Suc x div 4 = x div 4 + a" unfolding a_def div_Suc by (cases "Suc x mod 4 = 0") simp_all
  have s100: "Suc x div 100 = x div 100 + b" unfolding b_def div_Suc by (cases "Suc x mod 100 = 0") simp_all
  have s400: "Suc x div 400 = x div 400 + c" unfolding c_def div_Suc by (cases "Suc x mod 400 = 0") simp_all
  have a1: "a \<le> 1" by (simp add: a_def)
  have ba: "b \<le> a" using e by (cases "Suc x mod 100 = 0") (simp_all add: a_def b_def)
  have cb: "c \<le> b" using f by (cases "Suc x mod 400 = 0") (simp_all add: b_def c_def)
  have l: "(if is_leap (Suc x) then 366 else 365) = 365 + a - b + c"
    unfolding is_leap_def a_def b_def c_def using e f
    by (cases "Suc x mod 4 = 0"; cases "Suc x mod 100 = 0"; cases "Suc x mod 400 = 0") simp_all
  have "days_before_year (Suc y) = 365 * Suc x + (x div 4 + a) - (x div 100 + b) + (x div 400 + c)"
    by (simp only: days_before_year_def y diff_Suc_1 s4 s100 s400)
  also have "\<dots> = 365 * x + x div 4 - x div 100 + x div 400 + (365 + a - b + c)"
    by (rule year_length [OF d a1 ba cb])
  also have "\<dots> = days_before_year y + (if is_leap y then 366 else 365)"
    by (simp only: days_before_year_def y diff_Suc_1 l)
  finally show ?thesis .
qed

lemma upt_1_12: "[Suc 0..<12] = [1, 2, 3, 4, 5, 6, 7, 8, 9, 10, 11 :: nat]"
  by code_simp

lemma days_before_month_12:
  "days_before_month y 12 = (if is_leap y then 335 else 334)"
  by (simp add: days_before_month_def upt_1_12 days_in_month_def)

lemma days_before_month_Suc:
  "1 \<le> m \<Longrightarrow> days_before_month y (Suc m) = days_before_month y m + days_in_month y m"
  by (simp add: days_before_month_def)

lemma ordinal_next_day:
  assumes "valid_date (y, m, d)"
  shows "ordinal (next_day (y, m, d)) = Suc (ordinal (y, m, d))"
proof -
  from assms have y: "1 \<le> y" and m: "1 \<le> m" "m \<le> 12" and d: "1 \<le> d" "d \<le> days_in_month y m"
    by (simp_all add: valid_date_def)
  consider "d < days_in_month y m" | "d = days_in_month y m" "m < 12" | "d = days_in_month y m" "m = 12"
    using d m by linarith
  then show ?thesis
  proof cases
    case 1
    then show ?thesis by simp
  next
    case 2
    then show ?thesis using m days_before_month_Suc [of m y] by simp
  next
    case 3
    have "days_before_month y 1 = 0" "days_before_month (Suc y) 1 = 0"
      by (simp_all add: days_before_month_def)
    moreover have "days_in_month y 12 = 31" by (simp add: days_in_month_def)
    ultimately show ?thesis
      using 3 y days_before_year_Suc [of y] days_before_month_12 [of y] by simp
  qed
qed

lemma max_of_Max: "max_of vs = (if vs = [] then None else Some (Max (set vs)))"
proof (cases vs)
  case Nil
  then show ?thesis by simp
next
  case (Cons a list)
  then show ?thesis using Max.set_eq_fold [of a list] by simp
qed

lemma pop_fault_keeps [simp]:
  "tables (snd (pop_fault d)) = tables d" "oplog (snd (pop_fault d)) = oplog d"
  by (simp_all add: pop_fault_def split: list.splits)

lemma execute_cases:
  assumes "execute effect d = (r, d')"
  obtains msg where "r = Inl (DBError msg)" "tables d' = tables d" "oplog d' = oplog d"
  | "r = Inr ()" "d' = effect (snd (pop_fault d))"
proof -
  obtain f d0 where p: "pop_fault d = (f, d0)" by (cases "pop_fault d")
  have k: "tables d0 = tables d" "oplog d0 = oplog d"
    using pop_fault_keeps [of d] p by simp_all
  show thesis using assms p k that by (cases f) (auto simp: execute_def)
qed

lemma t_rows_create_table [simp]: "t_rows (create_table dtype df) = []"
  by (simp add: create_table_def)

lemma oplog_set_table [simp]: "oplog (set_table name t d) = oplog d"
  by (simp add: set_table_def)

lemma tables_set_table [simp]: "tables (set_table name t d) = (tables d)(name := t)"
  by (simp add: set_table_def)

lemma oplog_append_rows [simp]: "oplog (append_rows name chunk d) = oplog d"
  by (simp add: append_rows_def split: option.splits)

lemma oplog_add_indexes [simp]: "oplog (add_indexes name cols d) = oplog d"
  by (simp add: add_indexes_def split: option.splits)

lemma tables_append_rows:
  "tables (append_rows name chunk d) name =
     (case tables d name of None \<Rightarrow> None | Some t \<Rightarrow> Some (t\<lparr>t_rows := t_rows t @ chunk\<rparr>))"
  by (simp add: append_rows_def split: option.splits)

lemma insert_chunks_oplog: "oplog (snd (insert_chunks name cs d)) = oplog d"
proof (induction cs arbitrary: d)
  case Nil
  show ?case by simp
next
  case (Cons chunk cs)
  obtain r d1 where e: "execute (append_rows name chunk) d = (r, d1)"
    by (cases "execute (append_rows name chunk) d")
  from e show ?case
    by (rule execute_cases) (simp_all add: e Cons.IH)
qed

lemma insert_chunks_table:
  "tables d name = Some t \<Longrightarrow>
   \<exists>new. tables (snd (insert_chunks name cs d)) name = Some (t\<lparr>t_rows := t_rows t @ new\<rparr>) \<and>
         (fst (insert_chunks name cs d) = Inr () \<longrightarrow> new = concat cs)"
proof (induction cs arbitrary: d t)
  case Nil
  then show ?case by simp
next
  case (Cons chunk cs)
  obtain r d1 where e: "execute (append_rows name chunk) d = (r, d1)"
    by (cases "execute (append_rows name chunk) d")
  from e show ?case
  proof (rule execute_cases)
    fix msg assume "r = Inl (DBError msg)" "tables d1 = tables d" "oplog d1 = oplog d"
    with e Cons.prems show ?thesis
      by (intro exI [of _ "[]"]) simp
  next
    assume r: "r = Inr ()" and d1: "d1 = append_rows name chunk (snd (pop_fault d))"
    from d1 Cons.prems have t1: "tables d1 name = Some (t\<lparr>t_rows := t_rows t @ chunk\<rparr>)"
      by (simp add: tables_append_rows)
    from Cons.IH [OF t1] obtain new where
      n: "tables (snd (insert_chunks name cs d1)) name
            = Some (t\<lparr>t_rows := t_rows t @ chunk, t_rows := t_rows t @ chunk @ new\<rparr>)"
         "fst (insert_chunks name cs d1) = Inr () \<longrightarrow> new = concat cs"
      by auto
    with e r show ?thesis
      by (intro exI [of _ "chunk @ new"]) simp
  qed
qed

lemma insert_chunks_no_table:
  "tables d name = None \<Longrightarrow> tables (snd (insert_chunks name cs d)) name = None"
proof (induction cs arbitrary: d)
  case Nil
  then show ?case by simp
next
  case (Cons chunk cs)
  obtain r d1 where e: "execute (append_rows name chunk) d = (r, d1)"
    by (cases "execute (append_rows name chunk) d")
  from e show ?case
  proof (rule execute_cases)
    fix msg assume "r = Inl (DBError msg)" "tables d1 = tables d" "oplog d1 = oplog d"
    with e Cons.prems show ?thesis by simp
  next
    assume r: "r = Inr ()" and d1: "d1 = append_rows name chunk (snd (pop_fault d))"
    from d1 Cons.prems have "tables d1 name = None" by (simp add: tables_append_rows)
    from Cons.IH [OF this] e r show ?thesis by simp
  qed
qed

lemma prepare_oplog: "oplog (snd (prepare name if_exists dtype df d)) = oplog d"
proof (cases "tables d name")
  case None
  obtain r d1 where e: "execute (set_table name (Some (create_table dtype df))) d = (r, d1)"
    by (cases "execute (set_table name (Some (create_table dtype df))) d")
  from e show ?thesis
    by (rule execute_cases) (simp_all add: prepare_def None e)
next
  case (Some t)
  obtain r d1 where e: "execute (set_table name None) d = (r, d1)"
    by (cases "execute (set_table name None) d")
  obtain r2 d2 where e2: "execute (set_table name (Some (create_table dtype df))) d1 = (r2, d2)"
    by (cases "execute (set_table name (Some (create_table dtype df))) d1")
  have a: "oplog d1 = oplog d" using e by (rule execute_cases) simp_all
  have b: "oplog d2 = oplog d1" using e2 by (rule execute_cases) simp_all
  show ?thesis
    using a b by (cases r) (simp_all add: prepare_def Some e e2)
qed

lemma prepare_success:
  assumes "prepare name if_exists dtype df d = (Inr u, d')"
  shows "((if_exists = ''replace'' \<or> tables d name = None) \<and>
          tables d' name = Some (create_table dtype df)) \<or>
         (if_exists \<noteq> ''replace'' \<and> if_exists \<noteq> ''fail'' \<and>
          (\<exists>t. tables d name = Some t \<and> tables d' name = Some t \<and>
               set (map fst (df_columns df)) \<subseteq> set (map fst (t_columns t))))"
proof (cases "tables d name")
  case None
  with assms have e: "execute (set_table name (Some (create_table dtype df))) d = (Inr u, d')"
    by (simp add: prepare_def)
  from e have "tables d' name = Some (create_table dtype df)"
    by (rule execute_cases) simp_all
  with None show ?thesis by simp
next
  case (Some t)
  show ?thesis
  proof (cases "if_exists = ''replace''")
    case True
    obtain r d1 where e: "execute (set_table name None) d = (r, d1)"
      by (cases "execute (set_table name None) d")
    with assms Some True have
      e2: "execute (set_table name (Some (create_table dtype df))) d1 = (Inr u, d')"
      by (cases r) (simp_all add: prepare_def)
    from e2 have "tables d' name = Some (create_table dtype df)"
      by (rule execute_cases) simp_all
    with True show ?thesis by simp
  next
    case False
    with assms Some show ?thesis
      by (auto simp: prepare_def split: if_splits)
  qed
qed

lemma prepare_append_rows:
  "rows_of (snd (prepare name ''append'' dtype df d)) name = rows_of d name"
proof (cases "tables d name")
  case None
  obtain r d1 where e: "execute (set_table name (Some (create_table dtype df))) d = (r, d1)"
    by (cases "execute (set_table name (Some (create_table dtype df))) d")
  from e show ?thesis
    by (rule execute_cases) (simp_all add: prepare_def None e rows_of_def)
next
  case (Some t)
  then show ?thesis by (simp add: prepare_def)
qed

lemma to_sql_failure:
  "to_sql name if_exists dtype n df d = (Inl err, d1) \<Longrightarrow>
   oplog d1 = oplog d \<or> oplog d1 = oplog d @ [ToSql name if_exists]"
proof -
  assume a: "to_sql name if_exists dtype n df d = (Inl err, d1)"
  let ?d0 = "d\<lparr>oplog := oplog d @ [ToSql name if_exists]\<rparr>"
  show ?thesis
  proof (cases "if_exists \<in> {''fail'', ''replace'', ''append''}")
    case False
    with a show ?thesis by (simp add: to_sql_def)
  next
    case True
    obtain r d2 where p: "prepare name if_exists dtype df ?d0 = (r, d2)"
      by (cases "prepare name if_exists dtype df ?d0")
    have o: "oplog d2 = oplog ?d0" using prepare_oplog [of name if_exists dtype df ?d0] p by simp
    show ?thesis
    proof (cases r)
      case (Inl e)
      with a True p o show ?thesis by (auto simp: to_sql_def)
    next
      case (Inr u)
      with a True p have "d1 = snd (insert_chunks name (chunks n (to_rows df)) d2)"
        by (auto simp: to_sql_def)
      with o show ?thesis by (simp add: insert_chunks_oplog)
    qed
  qed
qed

lemma to_sql_success:
  assumes "to_sql name if_exists dtype 1000 df d = (Inr (), d')"
  shows "((if_exists = ''replace'' \<or> tables d name = None) \<and>
          tables d' name = Some ((create_table dtype df)\<lparr>t_rows := to_rows df\<rparr>)) \<or>
         (if_exists \<noteq> ''replace'' \<and>
          (\<exists>t. tables d name = Some t \<and>
               tables d' name = Some (t\<lparr>t_rows := t_rows t @ to_rows df\<rparr>) \<and>
               set (map fst (df_columns df)) \<subseteq> set (map fst (t_columns t))))"
proof -
  let ?d0 = "d\<lparr>oplog := oplog d @ [ToSql name if_exists]\<rparr>"
  let ?cs = "chunks 1000 (to_rows df)"
  from assms have v: "if_exists \<in> {''fail'', ''replace'', ''append''}"
    by (auto simp: to_sql_def split: if_splits)
  obtain r d2 where p: "prepare name if_exists dtype df ?d0 = (r, d2)"
    by (cases "prepare name if_exists dtype df ?d0")
  from assms v p have r: "r = Inr ()"
    by (cases r) (auto simp: to_sql_def)
  from assms v p r have i: "insert_chunks name ?cs d2 = (Inr (), d')"
    by (auto simp: to_sql_def)
  have c: "concat ?cs = to_rows df" by (simp add: concat_chunks)
  from p r have p': "prepare name if_exists dtype df ?d0 = (Inr (), d2)" by simp
  from prepare_success [OF p'] consider
    (new) "if_exists = ''replace'' \<or> tables d name = None"
      "tables d2 name = Some (create_table dtype df)"
  | (old) t where "if_exists \<noteq> ''replace''" "tables d name = Some t" "tables d2 name = Some t"
      "set (map fst (df_columns df)) \<subseteq> set (map fst (t_columns t))"
    by auto
  then show ?thesis
  proof cases
    case new
    from insert_chunks_table [OF new(2), of ?cs] i c
    have "tables d' name = Some ((create_table dtype df)\<lparr>t_rows := to_rows df\<rparr>)" by auto
    with new(1) show ?thesis by simp
  next
    case old
    from insert_chunks_table [OF old(3), of ?cs] i c
    have "tables d' name = Some (t\<lparr>t_rows := t_rows t @ to_rows df\<rparr>)" by auto
    with old show ?thesis by simp
  qed
qed

lemma to_sql_append_rows:
  "to_sql name ''append'' dtype 1000 df d = (Inr (), d') \<Longrightarrow>
   rows_of d' name = rows_of d name @ to_rows df"
  using to_sql_success [of name "''append''" dtype df d d']
  by (auto simp: rows_of_def)

lemma to_sql_replace_rows:
  "to_sql name ''replace'' dtype 1000 df d = (Inr (), d') \<Longrightarrow>
   rows_of d' name = to_rows df"
  using to_sql_success [of name "''replace''" dtype df d d']
  by (auto simp: rows_of_def)

lemma insert_chunks_keeps_rows:
  "\<exists>new. rows_of (snd (insert_chunks name cs d)) name = rows_of d name @ new"
proof (cases "tables d name")
  case None
  from insert_chunks_no_table [OF this, of cs] None show ?thesis by (simp add: rows_of_def)
next
  case (Some t)
  from insert_chunks_table [OF this, of cs] Some show ?thesis by (auto simp: rows_of_def)
qed

lemma to_sql_append_keeps_rows:
  "\<exists>new. rows_of (snd (to_sql name ''append'' dtype n df d)) name = rows_of d name @ new"
proof -
  let ?d0 = "d\<lparr>oplog := oplog d @ [ToSql name ''append'']\<rparr>"
  obtain r d2 where p: "prepare name ''append'' dtype df ?d0 = (r, d2)"
    by (cases "prepare name ''append'' dtype df ?d0")
  have k: "rows_of d2 name = rows_of d name"
    using prepare_append_rows [of name dtype df ?d0] p by (simp add: rows_of_def)
  show ?thesis
  proof (cases r)
    case (Inl e)
    with p k show ?thesis by (simp add: to_sql_def)
  next
    case (Inr u)
    with p have "to_sql name ''append'' dtype n df d = insert_chunks name (chunks n (to_rows df)) d2"
      by (simp add: to_sql_def)
    with insert_chunks_keeps_rows [of name "chunks n (to_rows df)" d2] k show ?thesis by simp
  qed
qed

lemma create_db_index_table:
  "tables (snd (create_db_index ix name df d)) name =
     (case tables d name of
        None \<Rightarrow> None
      | Some t \<Rightarrow>
          Some (if fst (create_db_index ix name df d) = Inr () then
                  t\<lparr>t_indexes := t_indexes t @
                       filter (\<lambda>c. c \<notin> set (t_indexes t)) (remdups (ix df))\<rparr>
                else t))"
proof (cases "tables d name")
  case None
  then show ?thesis by (simp add: create_db_index_def)
next
  case (Some t)
  let ?m = "filter (\<lambda>c. c \<notin> set (t_indexes t)) (remdups (ix df))"
  let ?d0 = "d\<lparr>oplog := oplog d @ [CreateIndex name ?m]\<rparr>"
  show ?thesis
  proof (cases "?m = []")
    case True
    with Some show ?thesis by (simp add: create_db_index_def)
  next
    case False
    obtain r d1 where e: "execute (add_indexes name ?m) ?d0 = (r, d1)"
      by (cases "execute (add_indexes name ?m) ?d0")
    from e show ?thesis
      by (rule execute_cases)
         (simp_all add: create_db_index_def Some False e add_indexes_def Let_def)
  qed
qed

lemma rows_of_create_db_index:
  "rows_of (snd (create_db_index ix name df d)) name = rows_of d name"
  by (simp add: rows_of_def create_db_index_table split: option.splits)

lemma to_db_success:
  "to_db ix self df if_exists d = (Inr (), d') \<Longrightarrow>
   \<exists>d1. to_sql (table_name self) if_exists dtype_dic 1000 df d = (Inr (), d1) \<and>
        create_db_index ix (table_name self) df d1 = (Inr (), d')"
  by (auto simp: to_db_def split: prod.splits sum.splits)

lemma to_db_append_keeps_rows:
  "\<exists>new. rows_of (snd (to_db ix self df ''append'' d)) (table_name self)
           = rows_of d (table_name self) @ new"
proof -
  obtain r d1 where t: "to_sql (table_name self) ''append'' dtype_dic 1000 df d = (r, d1)"
    by (cases "to_sql (table_name self) ''append'' dtype_dic 1000 df d")
  from to_sql_append_keeps_rows [of "table_name self" dtype_dic 1000 df d] t
  obtain new where n: "rows_of d1 (table_name self) = rows_of d (table_name self) @ new" by auto
  show ?thesis
  proof (cases r)
    case (Inl e)
    with t n show ?thesis by (simp add: to_db_def)
  next
    case (Inr u)
    with t have "to_db ix self df ''append'' d = create_db_index ix (table_name self) df d1"
      by (simp add: to_db_def)
    with n show ?thesis by (simp add: rows_of_create_db_index)
  qed
qed

lemma explicit_types_create_table: "explicit_types (create_table dtype_dic df)"
  by (auto simp: explicit_types_def create_table_def sqlalchemy_type_def split: option.splits)

lemma t_columns_create_table:
  "fst ` set (t_columns (create_table dtype df)) = fst ` set (df_columns df)"
  by (simp add: create_table_def image_image)

lemma explicit_types_VARCHAR:
  "explicit_types t \<Longrightarrow> (c, ty) \<in> set (t_columns t) \<Longrightarrow>
   (c = ''ts_code'' \<longrightarrow> ty = VARCHAR 9) \<and> (c = ''trade_date'' \<longrightarrow> ty = VARCHAR 8) \<and>
   (c = ''ann_date'' \<longrightarrow> ty = VARCHAR 8)"
  by (auto simp: explicit_types_def dtype_dic_def)

lemma to_sql_success_table:
  assumes "to_sql name if_exists dtype_dic 1000 df d = (Inr (), d1)"
    and "if_exists = ''replace'' \<or> (case tables d name of None \<Rightarrow> True | Some t \<Rightarrow> explicit_types t)"
  shows "\<exists>t1. tables d1 name = Some t1 \<and> explicit_types t1 \<and>
              set (map fst (df_columns df)) \<subseteq> set (map fst (t_columns t1))"
proof -
  from to_sql_success [OF assms(1)] consider
    (new) "tables d1 name = Some ((create_table dtype_dic df)\<lparr>t_rows := to_rows df\<rparr>)"
  | (old) t where "if_exists \<noteq> ''replace''" "tables d name = Some t"
      "tables d1 name = Some (t\<lparr>t_rows := t_rows t @ to_rows df\<rparr>)"
      "set (map fst (df_columns df)) \<subseteq> set (map fst (t_columns t))"
    by auto
  then show ?thesis
  proof cases
    case new
    have "explicit_types ((create_table dtype_dic df)\<lparr>t_rows := to_rows df\<rparr>)"
      using explicit_types_create_table [of df] by (simp add: explicit_types_def)
    with new show ?thesis by (simp add: t_columns_create_table)
  next
    case old
    with assms(2) have "explicit_types t" by simp
    then have "explicit_types (t\<lparr>t_rows := t_rows t @ to_rows df\<rparr>)"
      by (simp add: explicit_types_def)
    with old show ?thesis by simp
  qed
qed

lemma create_db_index_columns:
  "tables d name = Some t \<Longrightarrow>
   \<exists>t'. tables (snd (create_db_index ix name df d)) name = Some t' \<and> t_columns t' = t_columns t"
  by (simp add: create_db_index_table)

text \<open>
  A write that fails is not undone. A replace whose \<^verbatim>\<open>CREATE\<close> fails after the
  \<^verbatim>\<open>DROP\<close> went through has lost the old rows, and a write whose first \<^verbatim>\<open>INSERT\<close>
  fails leaves the table it created, without rows.
\<close>

lemma failed_replace_loses_old_rows:
  "rows_of (snd (to_db key_index daily daily_rows ''append'' empty_store)) ''daily''
     = to_rows daily_rows \<and>
   fst (to_db key_index daily daily_rows ''replace''
         ((snd (to_db key_index daily daily_rows ''append'' empty_store))
            \<lparr>faults := [None, Some ''server has gone away'']\<rparr>))
     = Inl (DBError ''server has gone away'') \<and>
   tables (snd (to_db key_index daily daily_rows ''replace''
         ((snd (to_db key_index daily daily_rows ''append'' empty_store))
            \<lparr>faults := [None, Some ''server has gone away'']\<rparr>))) ''daily'' = None"
  by code_simp

lemma failed_insert_leaves_created_table:
  "fst (to_db key_index daily daily_rows ''append''
         (empty_store\<lparr>faults := [None, Some ''server has gone away'']\<rparr>))
     = Inl (DBError ''server has gone away'') \<and>
   tables (snd (to_db key_index daily daily_rows ''append''
         (empty_store\<lparr>faults := [None, Some ''server has gone away'']\<rparr>))) ''daily''
     = Some (create_table dtype_dic daily_rows)"
  by code_simp

subsection \<open>The claims about the store operations\<close>

text \<open>
  Claim C5. \<^verbatim>\<open>get_start_date\<close> returns the fallback date \<^verbatim>\<open>'20080101'\<close> when the target
  table does not exist in the store. It returns the fallback date as well when the table
  exists and its date column holds no value, so that the maximum is NULL. Otherwise,
  the stored maximum being the text of a date, it returns the text of the day after:
  the day whose number is one more.
\<close>

theorem get_start_date_cases:
  assumes "tables d1 (table_name s1) = None"
    and "tables d2 (table_name s2) = Some t2"
    and "date_column_name s2 \<in> set (map fst (t_columns t2))"
    and "column_values (date_column_name s2) (t_rows t2) = []"
    and "tables d3 (table_name s3) = Some t3"
    and "date_column_name s3 \<in> set (map fst (t_columns t3))"
    and "column_values (date_column_name s3) (t_rows t3) \<noteq> []"
    and "parse_date (Max (set (column_values (date_column_name s3) (t_rows t3)))) = Some ymd"
    and "valid_date (next_day ymd)"
  shows "get_start_date s1 d1 = Inr ''20080101'' \<and>
         get_start_date s2 d2 = Inr ''20080101'' \<and>
         get_start_date s3 d3 = Inr (format_date (next_day ymd)) \<and>
         ordinal (next_day ymd) = Suc (ordinal ymd)"
proof -
  have a: "get_start_date s1 d1 = Inr ''20080101''"
    using assms(1) by (simp add: get_start_date_def is_table_exist_def EALIEST_DATE_def)
  have b: "get_start_date s2 d2 = Inr ''20080101''"
    using assms(2,3,4)
    by (simp add: get_start_date_def is_table_exist_def read_sql_max_def select_max_def
        EALIEST_DATE_def)
  have "read_sql_max (date_column_name s3) (table_name s3) d3
          = Inr (Some (Max (set (column_values (date_column_name s3) (t_rows t3)))))"
    using assms(5,6,7) by (simp add: read_sql_max_def select_max_def max_of_Max)
  then have c: "get_start_date s3 d3 = Inr (format_date (next_day ymd))"
    using assms(5,8,9) by (simp add: get_start_date_def is_table_exist_def tomorrow_def)
  from assms(8) have "valid_date ymd"
    by (auto simp: parse_date_def split: if_splits option.splits)
  then have e: "ordinal (next_day ymd) = Suc (ordinal ymd)"
    by (cases ymd) (simp add: ordinal_next_day del: next_day.simps ordinal.simps)
  from a b c e show ?thesis by simp
qed

theorem get_start_date_cases_witness:
  "get_start_date TradeCalendar empty_store = Inr ''20080101'' \<and>
   get_start_date TradeCalendar
     (snd (download key_index (Inr (cal_rows\<lparr>df_rows := []\<rparr>)) TradeCalendar empty_store))
     = Inr ''20080101'' \<and>
   get_start_date TradeCalendar
     (snd (download key_index (Inr cal_rows) TradeCalendar empty_store)) = Inr ''20080104''"
proof -
  let ?cols = "[(''exchange'', TEXT), (''cal_date'', TEXT), (''is_open'', BIGINT)]"
  let ?t2 = "\<lparr>t_columns = ?cols, t_rows = [], t_indexes = []\<rparr>"
  let ?t3 = "\<lparr>t_columns = ?cols, t_rows = to_rows cal_rows, t_indexes = []\<rparr>"
  let ?d2 = "snd (download key_index (Inr (cal_rows\<lparr>df_rows := []\<rparr>)) TradeCalendar empty_store)"
  let ?d3 = "snd (download key_index (Inr cal_rows) TradeCalendar empty_store)"
  have h1: "tables empty_store (table_name TradeCalendar) = None" by code_simp
  have h2: "tables ?d2 (table_name TradeCalendar) = Some ?t2" by code_simp
  have h3: "date_column_name TradeCalendar \<in> set (map fst (t_columns ?t2))" by code_simp
  have h4: "column_values (date_column_name TradeCalendar) (t_rows ?t2) = []" by code_simp
  have h5: "tables ?d3 (table_name TradeCalendar) = Some ?t3" by code_simp
  have h6: "date_column_name TradeCalendar \<in> set (map fst (t_columns ?t3))" by code_simp
  have h7: "column_values (date_column_name TradeCalendar) (t_rows ?t3) \<noteq> []" by code_simp
  have h8: "parse_date (Max (set (column_values (date_column_name TradeCalendar) (t_rows ?t3))))
              = Some (2008, 1, 3)" by code_simp
  have h9: "valid_date (next_day (2008, 1, 3))" by code_simp
  have f: "format_date (next_day (2008, 1, 3)) = ''20080104''" by code_simp
  from get_start_date_cases [OF h1 h2 h3 h4 h5 h6 h7 h8 h9] show ?thesis
    unfolding f by simp
qed

text \<open>
  Claim C6. When the write inside \<^verbatim>\<open>to_db\<close> fails, whatever the error, \<^verbatim>\<open>to_db\<close> fails
  with that very error and leaves the store as the failed write left it: nothing
  catches the error. The write is not tried again, since the log of the store grows by
  the one write at most, and no index is created after it.
\<close>

theorem to_db_write_failure:
  assumes "to_sql (table_name self) if_exists dtype_dic 1000 df d = (Inl err, d1)"
  shows "to_db ix self df if_exists d = (Inl err, d1) \<and>
         (oplog d1 = oplog d \<or> oplog d1 = oplog d @ [ToSql (table_name self) if_exists]) \<and>
         write_attempts d1 \<le> Suc (write_attempts d)"
proof -
  have a: "to_db ix self df if_exists d = (Inl err, d1)"
    using assms by (simp add: to_db_def)
  from to_sql_failure [OF assms]
  have c: "oplog d1 = oplog d \<or> oplog d1 = oplog d @ [ToSql (table_name self) if_exists]" .
  from c have "write_attempts d1 \<le> Suc (write_attempts d)"
    by (auto simp: write_attempts_def)
  with a c show ?thesis by simp
qed

theorem to_db_write_failure_witness:
  "to_db key_index TradeCalendar \<lparr>df_columns = [(''cal_date'', ObjectT)], df_rows = [[Some ''20080101'']]\<rparr>
      ''replace'' \<lparr>tables = Map.empty, oplog = [], faults = [Some ''server has gone away'']\<rparr>
   = (Inl (DBError ''server has gone away''),
      \<lparr>tables = Map.empty, oplog = [ToSql ''trade_cal'' ''replace''], faults = []\<rparr>)"
proof -
  let ?df = "\<lparr>df_columns = [(''cal_date'', ObjectT)], df_rows = [[Some ''20080101'']]\<rparr>"
  let ?d = "\<lparr>tables = Map.empty, oplog = [], faults = [Some ''server has gone away'']\<rparr>"
  let ?d1 = "\<lparr>tables = Map.empty, oplog = [ToSql ''trade_cal'' ''replace''], faults = []\<rparr>"
  have h: "to_sql (table_name TradeCalendar) ''replace'' dtype_dic 1000 ?df ?d
             = (Inl (DBError ''server has gone away''), ?d1)"
    by (simp add: to_sql_def prepare_def execute_def pop_fault_def TradeCalendar_def init_def)
  show ?thesis
    using to_db_write_failure [OF h, of key_index] by simp
qed

text \<open>
  Claim C7. Persisting in append mode never removes a row: whatever the outcome of the
  write, the table afterwards holds every row it had, in place, followed by what the
  write added; when the write succeeded, what it added is the rows of the row-set.
  Persisting in replace mode, when it succeeds, leaves the table with the rows of the
  row-set only, so with exactly as many rows as the row-set has; this is the mode of
  \<^verbatim>\<open>TradeCalendar.download\<close>, after which the table \<^verbatim>\<open>trade_cal\<close> has as many rows as
  the provider returned.
\<close>

theorem to_db_append_replace_rows:
  assumes "to_db ix1 self1 df1 ''append'' d1 = (Inr (), d1')"
    and "to_db ix2 self2 df2 ''replace'' d2 = (Inr (), d2')"
    and "download ix3 (Inr df3) TradeCalendar d3 = (Inr (), d3')"
  shows "(\<exists>new. rows_of (snd (to_db ix self df ''append'' d)) (table_name self)
                  = rows_of d (table_name self) @ new) \<and>
         rows_of d1' (table_name self1) = rows_of d1 (table_name self1) @ to_rows df1 \<and>
         rows_of d2' (table_name self2) = to_rows df2 \<and>
         length (rows_of d2' (table_name self2)) = length (df_rows df2) \<and>
         length (rows_of d3' ''trade_cal'') = length (df_rows df3)"
proof -
  from to_db_success [OF assms(1)] obtain e1 where
    "to_sql (table_name self1) ''append'' dtype_dic 1000 df1 d1 = (Inr (), e1)"
    "create_db_index ix1 (table_name self1) df1 e1 = (Inr (), d1')" by blast
  then have a: "rows_of d1' (table_name self1) = rows_of d1 (table_name self1) @ to_rows df1"
    using rows_of_create_db_index [of ix1 "table_name self1" df1 e1]
    by (simp add: to_sql_append_rows)
  from to_db_success [OF assms(2)] obtain e2 where
    "to_sql (table_name self2) ''replace'' dtype_dic 1000 df2 d2 = (Inr (), e2)"
    "create_db_index ix2 (table_name self2) df2 e2 = (Inr (), d2')" by blast
  then have b: "rows_of d2' (table_name self2) = to_rows df2"
    using rows_of_create_db_index [of ix2 "table_name self2" df2 e2]
    by (simp add: to_sql_replace_rows)
  from assms(3) have "to_db ix3 TradeCalendar df3 ''replace'' d3 = (Inr (), d3')"
    by (simp add: download_def)
  from to_db_success [OF this] obtain e3 where
    "to_sql (table_name TradeCalendar) ''replace'' dtype_dic 1000 df3 d3 = (Inr (), e3)"
    "create_db_index ix3 (table_name TradeCalendar) df3 e3 = (Inr (), d3')" by blast
  then have "rows_of d3' (table_name TradeCalendar) = to_rows df3"
    using rows_of_create_db_index [of ix3 "table_name TradeCalendar" df3 e3]
    by (simp add: to_sql_replace_rows)
  then have c: "rows_of d3' ''trade_cal'' = to_rows df3"
    by (simp add: TradeCalendar_def init_def)
  from a b c to_db_append_keeps_rows [of ix self df d] show ?thesis
    by (simp add: length_to_rows)
qed

theorem to_db_append_replace_rows_witness:
  "length (rows_of (snd (to_db key_index daily daily_rows ''append''
       (snd (to_db key_index daily daily_rows ''append'' empty_store)))) ''daily'') = 4 \<and>
   length (rows_of (snd (to_db key_index daily daily_rows ''replace''
       (snd (to_db key_index daily daily_rows ''append'' empty_store)))) ''daily'') = 2 \<and>
   length (rows_of (snd (download key_index (Inr cal_rows) TradeCalendar
       (snd (download key_index (Inr cal_rows) TradeCalendar empty_store)))) ''trade_cal'') = 3"
proof -
  let ?d = "snd (to_db key_index daily daily_rows ''append'' empty_store)"
  let ?a = "to_db key_index daily daily_rows ''append'' ?d"
  let ?r = "to_db key_index daily daily_rows ''replace'' ?d"
  let ?c = "snd (download key_index (Inr cal_rows) TradeCalendar empty_store)"
  let ?t = "download key_index (Inr cal_rows) TradeCalendar ?c"
  have "fst ?a = Inr ()" by code_simp
  then have h1: "?a = (Inr (), snd ?a)" by (simp add: prod_eq_iff)
  have "fst ?r = Inr ()" by code_simp
  then have h2: "?r = (Inr (), snd ?r)" by (simp add: prod_eq_iff)
  have "fst ?t = Inr ()" by code_simp
  then have h3: "?t = (Inr (), snd ?t)" by (simp add: prod_eq_iff)
  have n: "table_name daily = ''daily''" by code_simp
  have l: "length (rows_of ?d ''daily'') = 2" "length (df_rows daily_rows) = 2"
    "length (df_rows cal_rows) = 3" by code_simp+
  from to_db_append_replace_rows [OF h1 h2 h3] l show ?thesis
    unfolding n by (simp add: length_to_rows)
qed

text \<open>
  Claim C8. After a row-set was persisted, the table has every column of the row-set,
  and each of its columns that is one of the recognised fields has the explicit type
  of \<^verbatim>\<open>dtype_dic\<close>, not an inferred one: \<^verbatim>\<open>ts_code\<close> is \<open>VARCHAR 9\<close>, \<^verbatim>\<open>trade_date\<close> and
  \<^verbatim>\<open>ann_date\<close> are \<open>VARCHAR 8\<close>. In append mode the table that is already there keeps
  the types it has, so it must have been created with them, as \<^verbatim>\<open>to_db\<close> does.
\<close>

theorem to_db_explicit_types:
  assumes "to_db ix self df if_exists d = (Inr (), d')"
    and "if_exists = ''replace'' \<or>
         (case tables d (table_name self) of None \<Rightarrow> True | Some t \<Rightarrow> explicit_types t)"
  shows "\<exists>t'. tables d' (table_name self) = Some t' \<and>
           set (map fst (df_columns df)) \<subseteq> set (map fst (t_columns t')) \<and>
           explicit_types t' \<and>
           (\<forall>(c, ty) \<in> set (t_columns t').
              (c = ''ts_code'' \<longrightarrow> ty = VARCHAR 9) \<and>
              (c = ''trade_date'' \<longrightarrow> ty = VARCHAR 8) \<and>
              (c = ''ann_date'' \<longrightarrow> ty = VARCHAR 8))"
proof -
  from to_db_success [OF assms(1)] obtain d1 where
    w: "to_sql (table_name self) if_exists dtype_dic 1000 df d = (Inr (), d1)"
    and i: "create_db_index ix (table_name self) df d1 = (Inr (), d')" by blast
  from to_sql_success_table [OF w assms(2)] obtain t1 where
    t1: "tables d1 (table_name self) = Some t1" "explicit_types t1"
      "set (map fst (df_columns df)) \<subseteq> set (map fst (t_columns t1))" by blast
  from create_db_index_columns [OF t1(1), of ix df] i obtain t' where
    t': "tables d' (table_name self) = Some t'" "t_columns t' = t_columns t1" by auto
  from t1(2) t'(2) have e: "explicit_types t'" by (simp add: explicit_types_def)
  have "\<forall>(c, ty) \<in> set (t_columns t').
              (c = ''ts_code'' \<longrightarrow> ty = VARCHAR 9) \<and>
              (c = ''trade_date'' \<longrightarrow> ty = VARCHAR 8) \<and>
              (c = ''ann_date'' \<longrightarrow> ty = VARCHAR 8)"
    using explicit_types_VARCHAR [OF e] by blast
  with t' t1(3) e show ?thesis by simp
qed

theorem to_db_explicit_types_witness:
  "\<exists>t'. tables (snd (to_db key_index daily daily_rows ''append''
               (snd (to_db key_index daily daily_rows ''append'' empty_store)))) ''daily'' = Some t' \<and>
        (''ts_code'', VARCHAR 9) \<in> set (t_columns t') \<and>
        (''trade_date'', VARCHAR 8) \<in> set (t_columns t')"
proof -
  let ?d = "snd (to_db key_index daily daily_rows ''append'' empty_store)"
  let ?r = "to_db key_index daily daily_rows ''append'' ?d"
  have "fst ?r = Inr ()" by code_simp
  then have h1: "?r = (Inr (), snd ?r)" by (simp add: prod_eq_iff)
  have h2: "''append'' = ''replace'' \<or>
         (case tables ?d (table_name daily) of None \<Rightarrow> True | Some t \<Rightarrow> explicit_types t)"
    by code_simp
  have n: "table_name daily = ''daily''" by code_simp
  have c: "map fst (df_columns daily_rows) = [''ts_code'', ''trade_date'', ''vol'']" by code_simp
  from to_db_explicit_types [OF h1 h2] obtain t' where
    t: "tables (snd ?r) ''daily'' = Some t'"
      "set (map fst (df_columns daily_rows)) \<subseteq> set (map fst (t_columns t'))"
      "\<forall>(c, ty) \<in> set (t_columns t').
              (c = ''ts_code'' \<longrightarrow> ty = VARCHAR 9) \<and>
              (c = ''trade_date'' \<longrightarrow> ty = VARCHAR 8) \<and>
              (c = ''ann_date'' \<longrightarrow> ty = VARCHAR 8)"
    unfolding n by blast
  from t(2) have "''ts_code'' \<in> fst ` set (t_columns t')" "''trade_date'' \<in> fst ` set (t_columns t')"
    unfolding c by simp_all
  with t(3) have "(''ts_code'', VARCHAR 9) \<in> set (t_columns t')"
    "(''trade_date'', VARCHAR 8) \<in> set (t_columns t')" by fastforce+
  with t(1) show ?thesis by blast
qed

end
